theory Spec2Isabelle
  imports Complex_Main "HOL-Library.AList" "HOL-Library.Char_ord"
    "HOL-Library.List_Lexorder" "HOL-Library.Product_Lexorder"
begin

section \<open>Data model\<close>

text \<open>
  The program is a single script, \<^verbatim>\<open>streamlitfin.py\<close>: \<^verbatim>\<open>load_and_clean\<close> cleans a
  pandas DataFrame read from a CSV file, and the rest of the script derives the monthly
  views from the cleaned frame.

  A DataFrame is modelled as pandas stores it: an ordered association list from column
  names to columns, a column being the list of its cells. A cell is missing (\<open>NaN\<close>; the
  missing timestamp \<open>NaT\<close> is the same null for \<^verbatim>\<open>fillna\<close>, \<^verbatim>\<open>dropna\<close> and \<^verbatim>\<open>groupby\<close>
  and is not distinguished), a text, a number or a timestamp. Numbers are exact
  rationals: the rounding and the range of 64-bit floats are not modelled. Timestamps are
  calendar dates: the time of day plays no part in the script. Texts are byte strings, so
  what Python's regular expressions do on non-ASCII letters and digits is outside the
  model.
\<close>

record date =
  year :: nat
  month :: nat
  day :: nat

datatype cell = NaN | Str string | Num rat | Ts date

type_synonym series = "cell list"

type_synonym frame = "(string \<times> series) list"

datatype error = KeyError string

text \<open>
  Two library functions are parameters of the model. \<open>parse_datetime\<close> is the permissive
  date parser behind \<^verbatim>\<open>pd.to_datetime\<close>; it sees the whole column besides the cell,
  since pandas may infer one format for the column. \<open>float_repr\<close> is the text
  \<^verbatim>\<open>astype(str)\<close> gives a number.
\<close>

record pandas =
  parse_datetime :: "series \<Rightarrow> cell \<Rightarrow> date option"
  float_repr :: "rat \<Rightarrow> string"

section \<open>Strings\<close>

definition startswith :: "string \<Rightarrow> string \<Rightarrow> bool" where
  "startswith s p = (take (length p) s = p)"

text \<open>
  \<^verbatim>\<open>str.replace(old, new)\<close> for a non-empty \<open>old\<close>: the occurrences are found from the
  left and do not overlap. (With an empty \<open>old\<close> Python inserts \<open>new\<close> around every
  character; the script only replaces \<^verbatim>\<open>"CHF"\<close>, and the model leaves the text as it is.)
\<close>

function str_replace :: "string \<Rightarrow> string \<Rightarrow> string \<Rightarrow> string" where
  "str_replace old new [] = []"
| "str_replace old new (c # cs) =
     (if old \<noteq> [] \<and> take (length old) (c # cs) = old
      then new @ str_replace old new (drop (length old) (c # cs))
      else c # str_replace old new cs)"
  by pat_completeness auto
termination
  by (relation "measure (\<lambda>(old, new, s). length s)") auto

definition isdigit :: "char \<Rightarrow> bool" where
  "isdigit c = (c \<in> set ''0123456789'')"

text \<open>The characters that the pattern \<^verbatim>\<open>[^\d\.-]\<close> does not match.\<close>

definition numeric_char :: "char \<Rightarrow> bool" where
  "numeric_char c = (isdigit c \<or> c = CHR ''.'' \<or> c = CHR ''-'')"

definition re_sub_non_numeric :: "string \<Rightarrow> string" where
  "re_sub_non_numeric s = filter numeric_char s"



fun find_sub :: "string \<Rightarrow> string \<Rightarrow> bool" where
  "find_sub p [] = (p = [])"
| "find_sub p (c # cs) = (take (length p) (c # cs) = p \<or> find_sub p cs)"


section \<open>Numbers and dates as text\<close>

definition digit_val :: "char \<Rightarrow> nat" where
  "digit_val c = of_char c - 48"

definition dec_val :: "string \<Rightarrow> nat" where
  "dec_val s = foldl (\<lambda>a c. 10 * a + digit_val c) 0 s"

text \<open>
  The number parser behind \<^verbatim>\<open>pd.to_numeric\<close>, on the texts that reach it in this script:
  an optional minus sign, digits, an optional decimal point and more digits, at least one
  digit in all, and nothing after them. Any other text is not a number. (The parser also
  reads a plus sign, blanks, exponents and the words for infinity, none of which survive
  the substitution that precedes it.)
\<close>

definition parse_number :: "string \<Rightarrow> rat option" where
  "parse_number s =
     (let neg = (s \<noteq> [] \<and> hd s = CHR ''-'');
          body = (if neg then tl s else s);
          ip = takeWhile isdigit body;
          r = dropWhile isdigit body;
          dot = (r \<noteq> [] \<and> hd r = CHR ''.'');
          fp = (if dot then takeWhile isdigit (tl r) else []);
          rest = (if dot then dropWhile isdigit (tl r) else r);
          v = of_nat (dec_val ip) + of_nat (dec_val fp) / 10 ^ length fp
      in if rest \<noteq> [] \<or> (ip = [] \<and> fp = []) then None
         else Some (if neg then - v else v))"

fun digits :: "nat \<Rightarrow> string" where
  "digits n =
     (if n < 10 then [char_of (48 + n)]
      else digits (n div 10) @ [char_of (48 + n mod 10)])"

declare digits.simps [simp del]

definition zero_pad :: "nat \<Rightarrow> nat \<Rightarrow> string" where
  "zero_pad w n = replicate (w - length (digits n)) CHR ''0'' @ digits n"

text \<open>\<^verbatim>\<open>strftime("%Y-%m")\<close>, and the ISO text of a date, \<^verbatim>\<open>YYYY-MM-DD\<close>.\<close>

definition strftime_Ym :: "date \<Rightarrow> string" where
  "strftime_Ym d = zero_pad 4 (year d) @ ''-'' @ zero_pad 2 (month d)"

definition isoformat :: "date \<Rightarrow> string" where
  "isoformat d =
     zero_pad 4 (year d) @ ''-'' @ zero_pad 2 (month d) @ ''-'' @ zero_pad 2 (day d)"

definition leap_year :: "nat \<Rightarrow> bool" where
  "leap_year y = (y mod 4 = 0 \<and> (y mod 100 \<noteq> 0 \<or> y mod 400 = 0))"

definition days_in_month :: "nat \<Rightarrow> nat \<Rightarrow> nat" where
  "days_in_month y m =
     (if m = 2 then (if leap_year y then 29 else 28)
      else if m \<in> {4, 6, 9, 11} then 30 else 31)"

text \<open>
  The dates a pandas timestamp can hold: real calendar dates from 1677-09-21 to
  2262-04-11.
\<close>

definition valid_date :: "date \<Rightarrow> bool" where
  "valid_date d =
     (1 \<le> month d \<and> month d \<le> 12 \<and> 1 \<le> day d \<and> day d \<le> days_in_month (year d) (month d)
      \<and> (1677, 9, 21) \<le> (year d, month d, day d)
      \<and> (year d, month d, day d) \<le> (2262, 4, 11))"

section \<open>Columns\<close>

definition and_then :: "error + 'a \<Rightarrow> ('a \<Rightarrow> error + 'b) \<Rightarrow> error + 'b" where
  "and_then m f = (case m of Inl e \<Rightarrow> Inl e | Inr x \<Rightarrow> f x)"

text \<open>\<^verbatim>\<open>df[name]\<close> raises \<^verbatim>\<open>KeyError\<close> when the frame has no such column.\<close>

definition getcol :: "frame \<Rightarrow> string \<Rightarrow> error + series" where
  "getcol df name = (case map_of df name of None \<Rightarrow> Inl (KeyError name) | Some c \<Rightarrow> Inr c)"

text \<open>
  \<^verbatim>\<open>df[name] = column\<close> replaces the column where it stands, or adds it after the last
  one.
\<close>

definition setcol :: "frame \<Rightarrow> string \<Rightarrow> series \<Rightarrow> frame" where
  "setcol df name c = AList.update name c df"

text \<open>\<^verbatim>\<open>df.drop(columns=names, errors="ignore")\<close>.\<close>

definition drop_columns :: "string list \<Rightarrow> frame \<Rightarrow> frame" where
  "drop_columns names df = filter (\<lambda>(n, c). n \<notin> set names) df"

text \<open>Boolean indexing, on one column and on every column of a frame.\<close>

definition select :: "bool list \<Rightarrow> 'a list \<Rightarrow> 'a list" where
  "select msk xs = map snd (filter fst (zip msk xs))"

definition select_rows :: "bool list \<Rightarrow> frame \<Rightarrow> frame" where
  "select_rows msk df = map (\<lambda>(n, c). (n, select msk c)) df"

definition notna :: "series \<Rightarrow> bool list" where
  "notna col = map (\<lambda>c. c \<noteq> NaN) col"

definition fillna :: "cell \<Rightarrow> series \<Rightarrow> series" where
  "fillna v col = map (\<lambda>c. if c = NaN then v else c) col"

text \<open>\<^verbatim>\<open>df.dropna(subset=[name])\<close>.\<close>

definition dropna_subset :: "string \<Rightarrow> frame \<Rightarrow> error + frame" where
  "dropna_subset name df = and_then (getcol df name) (\<lambda>c. Inr (select_rows (notna c) df))"

text \<open>
  \<^verbatim>\<open>pd.to_datetime(col, errors="coerce")\<close>: a timestamp stays, a missing cell stays
  missing, any other cell goes through the parser, and what does not parse, or parses to
  a date that no timestamp can hold, becomes missing.
\<close>

definition coerce_date :: "date option \<Rightarrow> cell" where
  "coerce_date r = (case r of None \<Rightarrow> NaN | Some d \<Rightarrow> if valid_date d then Ts d else NaN)"

definition to_datetime_cell :: "pandas \<Rightarrow> series \<Rightarrow> cell \<Rightarrow> cell" where
  "to_datetime_cell L col c =
     (case c of Ts d \<Rightarrow> coerce_date (Some d) | NaN \<Rightarrow> NaN
      | _ \<Rightarrow> coerce_date (parse_datetime L col c))"

definition to_datetime :: "pandas \<Rightarrow> series \<Rightarrow> series" where
  "to_datetime L col = map (to_datetime_cell L col) col"

text \<open>\<^verbatim>\<open>col.astype(str)\<close>; Python writes a missing cell as \<^verbatim>\<open>nan\<close>.\<close>

definition str_of_cell :: "pandas \<Rightarrow> cell \<Rightarrow> string" where
  "str_of_cell L c =
     (case c of Str s \<Rightarrow> s | NaN \<Rightarrow> ''nan'' | Num r \<Rightarrow> float_repr L r | Ts d \<Rightarrow> isoformat d)"

definition astype_str :: "pandas \<Rightarrow> series \<Rightarrow> series" where
  "astype_str L col = map (\<lambda>c. Str (str_of_cell L c)) col"

text \<open>The methods of \<^verbatim>\<open>col.str\<close> work on the texts of a column and give null elsewhere.\<close>

definition str_map :: "(string \<Rightarrow> string) \<Rightarrow> series \<Rightarrow> series" where
  "str_map f col = map (\<lambda>c. case c of Str s \<Rightarrow> Str (f s) | _ \<Rightarrow> NaN) col"



text \<open>
  \<^verbatim>\<open>pd.to_numeric(col, errors="coerce")\<close>: a text that is not a number becomes missing.
  (A timestamp never reaches it in this script.)
\<close>

definition to_numeric :: "series \<Rightarrow> series" where
  "to_numeric col =
     map (\<lambda>c. case c of
            Str s \<Rightarrow> (case parse_number s of None \<Rightarrow> NaN | Some v \<Rightarrow> Num v)
          | Num r \<Rightarrow> Num r
          | _ \<Rightarrow> NaN) col"

definition dt_strftime_Ym :: "series \<Rightarrow> series" where
  "dt_strftime_Ym col = map (\<lambda>c. case c of Ts d \<Rightarrow> Str (strftime_Ym d) | _ \<Rightarrow> NaN) col"



section \<open>The normalizer: \<^verbatim>\<open>load_and_clean\<close>\<close>

definition load_and_clean :: "pandas \<Rightarrow> frame \<Rightarrow> error + frame" where
  "load_and_clean L df0 =
     (let df = drop_columns [col \<leftarrow> map fst df0. startswith col ''Unnamed''] df0 in
      and_then (getcol df ''Date'') (\<lambda>date.
      let df = setcol df ''Date'' (to_datetime L date) in
      and_then (getcol df ''Amount'') (\<lambda>amount.
      let df = setcol df ''Amount_numeric''
                 (str_map re_sub_non_numeric
                   (str_map (str_replace ''CHF'' []) (astype_str L amount))) in
      and_then (getcol df ''Amount_numeric'') (\<lambda>amount_numeric.
      let df = setcol df ''Amount_numeric'' (fillna (Num 0) (to_numeric amount_numeric)) in
      and_then (getcol df ''Date'') (\<lambda>date.
      let df = setcol df ''Month'' (dt_strftime_Ym date) in
      and_then (getcol df ''Category'') (\<lambda>category.
      let df = setcol df ''Category'' (fillna (Str ''Uncategorized'') category) in
      and_then (getcol df ''Received / paid'') (\<lambda>received_paid.
      let df = setcol df ''Received / paid'' (fillna (Str ''Unknown'') received_paid) in
      and_then (getcol df ''If shopped, where'') (\<lambda>shopped.
      let df = setcol df ''If shopped, where'' (fillna (Str []) shopped) in
      dropna_subset ''Date'' df))))))))"

section \<open>The views of the selected month\<close>

text \<open>
  \<^verbatim>\<open>sorted(df["Month"].unique(), reverse=True)\<close>, on the texts of the column (after
  \<^verbatim>\<open>load_and_clean\<close> it holds nothing else).
\<close>

definition month_list :: "frame \<Rightarrow> error + string list" where
  "month_list df =
     and_then (getcol df ''Month'') (\<lambda>m. Inr (rev (sort (remdups [s. Str s \<leftarrow> m]))))"
















section \<open>A sample of the library\<close>

text \<open>
  To run the model on concrete frames the two library functions are instantiated: the
  sample parser reads the day-first form \<^verbatim>\<open>DD.MM.YYYY\<close> and the ISO form
  \<^verbatim>\<open>YYYY-MM-DD\<close>, both of which \<^verbatim>\<open>pd.to_datetime\<close> reads, and no other text; the
  sample \<open>float_repr\<close> writes a whole number as Python does, \<^verbatim>\<open>100.0\<close>.
\<close>

definition sample_parse :: "series \<Rightarrow> cell \<Rightarrow> date option" where
  "sample_parse col c =
     (case c of
        Str s \<Rightarrow>
          if length s = 10 \<and> s ! 4 = CHR ''-'' \<and> s ! 7 = CHR ''-''
             \<and> list_all isdigit (take 4 s @ take 2 (drop 5 s) @ drop 8 s)
          then Some \<lparr>year = dec_val (take 4 s), month = dec_val (take 2 (drop 5 s)),
                      day = dec_val (drop 8 s)\<rparr>
          else if length s = 10 \<and> s ! 2 = CHR ''.'' \<and> s ! 5 = CHR ''.''
             \<and> list_all isdigit (take 2 s @ take 2 (drop 3 s) @ drop 6 s)
          then Some \<lparr>year = dec_val (drop 6 s), month = dec_val (take 2 (drop 3 s)),
                      day = dec_val (take 2 s)\<rparr>
          else None
      | _ \<Rightarrow> None)"

definition sample_repr :: "rat \<Rightarrow> string" where
  "sample_repr r = (if r < 0 then ''-'' else []) @ digits (nat \<lfloor>\<bar>r\<bar>\<rfloor>) @ ''.0''"

definition sample_pandas :: pandas where
  "sample_pandas = \<lparr>parse_datetime = sample_parse, float_repr = sample_repr\<rparr>"

text \<open>
  The scenario of the specification, with two more rows, one with empty cells and a
  negative amount and one whose direction names both words, and with an index column as
  \<^verbatim>\<open>read_csv\<close> names it.
\<close>

definition sample_frame :: frame where
  "sample_frame =
     [(''Unnamed: 0'', [Num 0, Num 1, Num 2, Num 3, Num 4]),
      (''Date'', [Str ''01.01.2024'', Str ''15.01.2024'', Str ''bad'', Str ''2024-02-03'', Str ''2024-02-10'']),
      (''Amount'', [Str ''CHF 100'', Str ''200'', Str ''5'', Str ''-7.50 CHF'', Str ''30'']),
      (''Category'', [Str ''Food'', Str ''Salary'', Str ''X'', NaN, Str ''Transfer'']),
      (''Received / paid'', [Str ''Paid'', Str ''Received'', Str ''Paid'', NaN, Str ''Received, then paid back'']),
      (''If shopped, where'', [Str ''Migros'', NaN, NaN, NaN, NaN])]"

text \<open>What \<^verbatim>\<open>load_and_clean\<close> makes of the sample frame.\<close>

definition sample_clean :: frame where
  "sample_clean =
     [(''Date'', [Ts \<lparr>year = 2024, month = 1, day = 1\<rparr>, Ts \<lparr>year = 2024, month = 1, day = 15\<rparr>,
                 Ts \<lparr>year = 2024, month = 2, day = 3\<rparr>, Ts \<lparr>year = 2024, month = 2, day = 10\<rparr>]),
      (''Amount'', [Str ''CHF 100'', Str ''200'', Str ''-7.50 CHF'', Str ''30'']),
      (''Category'', [Str ''Food'', Str ''Salary'', Str ''Uncategorized'', Str ''Transfer'']),
      (''Received / paid'', [Str ''Paid'', Str ''Received'', Str ''Unknown'', Str ''Received, then paid back'']),
      (''If shopped, where'', [Str ''Migros'', Str [], Str [], Str []]),
      (''Amount_numeric'', [Num 100, Num 200, Num (- (15 / 2)), Num 30]),
      (''Month'', [Str ''2024-01'', Str ''2024-01'', Str ''2024-02'', Str ''2024-02''])]"

section \<open>The columns that \<^verbatim>\<open>load_and_clean\<close> computes\<close>

text \<open>
  Names for the values of the script's expressions: the column assigned to
  \<^verbatim>\<open>Amount_numeric\<close> by lines 16 to 22, and the frame as it stands before the final
  \<^verbatim>\<open>dropna\<close>, given the five columns that the function reads.
\<close>

definition amount_numeric :: "pandas \<Rightarrow> series \<Rightarrow> series" where
  "amount_numeric L a =
     fillna (Num 0) (to_numeric (str_map re_sub_non_numeric
       (str_map (str_replace ''CHF'' []) (astype_str L a))))"

definition cleaned :: "pandas \<Rightarrow> frame \<Rightarrow> series \<Rightarrow> series \<Rightarrow> series \<Rightarrow> series \<Rightarrow> series \<Rightarrow> frame" where
  "cleaned L df0 d a c r w =
     setcol (setcol (setcol (setcol (setcol (setcol
       (drop_columns [col \<leftarrow> map fst df0. startswith col ''Unnamed''] df0)
       ''Date'' (to_datetime L d))
       ''Amount_numeric'' (amount_numeric L a))
       ''Month'' (dt_strftime_Ym (to_datetime L d)))
       ''Category'' (fillna (Str ''Uncategorized'') c))
       ''Received / paid'' (fillna (Str ''Unknown'') r))
       ''If shopped, where'' (fillna (Str []) w)"

text \<open>The columns that \<^verbatim>\<open>load_and_clean\<close> reads.\<close>

definition required_columns :: "string list" where
  "required_columns = [''Date'', ''Amount'', ''Category'', ''Received / paid'', ''If shopped, where'']"

text \<open>The positions of the rows whose date parses, in a \<^verbatim>\<open>Date\<close> column \<open>d\<close>.\<close>

definition kept :: "pandas \<Rightarrow> series \<Rightarrow> nat set" where
  "kept L d = {i. i < length d \<and> to_datetime L d ! i \<noteq> NaN}"

text \<open>The columns that \<^verbatim>\<open>load_and_clean\<close> assigns.\<close>

definition assigned_columns :: "string list" where
  "assigned_columns =
     [''Date'', ''Amount_numeric'', ''Month'', ''Category'', ''Received / paid'', ''If shopped, where'']"

text \<open>
  The amount of a raw cell in the words of the specification: from the text of the cell,
  delete the token \<^verbatim>\<open>CHF\<close> and every character that is not a digit, a decimal point
  or a minus sign, parse what remains as a decimal number, and take 0 when it is not one.
\<close>

definition spec_amount :: "string \<Rightarrow> rat" where
  "spec_amount text =
     (case parse_number (filter numeric_char (str_replace ''CHF'' [] text)) of
        None \<Rightarrow> 0 | Some v \<Rightarrow> v)"






section \<open>Selecting rows and reading columns\<close>


lemma select_Nil [simp]: "select [] xs = []" "select m [] = []"
  by (simp_all add: select_def)

lemma select_Cons [simp]:
  "select (b # m) (x # xs) = (if b then x # select m xs else select m xs)"
  by (simp add: select_def)

lemma select_map: "select m (map f xs) = map f (select m xs)"
proof (induction m arbitrary: xs)
  case Nil
  show ?case by simp
next
  case (Cons b m)
  then show ?case by (cases xs) simp_all
qed

lemma set_select: "set (select m xs) \<subseteq> set xs"
proof (induction m arbitrary: xs)
  case Nil
  show ?case by simp
next
  case (Cons b m)
  then show ?case by (cases xs) auto
qed

lemma select_nths: "select m xs = nths xs {i. i < length m \<and> m ! i}"
proof (induction m arbitrary: xs)
  case Nil
  show ?case by simp
next
  case (Cons b m)
  show ?case
  proof (cases xs)
    case Nil
    then show ?thesis by simp
  next
    case (Cons x xs')
    have "{j. Suc j \<in> {i. i < length (b # m) \<and> (b # m) ! i}} = {i. i < length m \<and> m ! i}"
      by auto
    then show ?thesis using Cons Cons.IH [of xs'] by (simp add: nths_Cons)
  qed
qed

lemma length_select_le: "length (select m xs) \<le> length (filter id m)"
proof (induction m arbitrary: xs)
  case Nil
  show ?case by simp
next
  case (Cons b m)
  then show ?case by (cases xs) (auto intro: le_SucI)
qed

lemma length_select_eq: "length xs = length m \<Longrightarrow> length (select m xs) = length (filter id m)"
proof (induction m arbitrary: xs)
  case Nil
  then show ?case by simp
next
  case (Cons b m)
  then show ?case by (cases xs) auto
qed

lemma select_all: "list_all id m \<Longrightarrow> length xs \<le> length m \<Longrightarrow> select m xs = xs"
proof (induction m arbitrary: xs)
  case Nil
  then show ?case by simp
next
  case (Cons b m)
  then show ?case by (cases xs) auto
qed

lemma select_none: "list_all Not m \<Longrightarrow> select m xs = []"
proof (induction m arbitrary: xs)
  case Nil
  then show ?case by simp
next
  case (Cons b m)
  then show ?case by (cases xs) auto
qed

lemma map_of_select_rows: "map_of (select_rows m df) n = map_option (select m) (map_of df n)"
  by (induction df) (auto simp: select_rows_def)

lemma keys_select_rows: "map fst (select_rows m df) = map fst df"
  by (induction df) (auto simp: select_rows_def)

lemma map_of_setcol: "map_of (setcol df n c) = (map_of df)(n \<mapsto> c)"
  by (simp add: setcol_def update_conv')

lemma map_of_drop_columns:
  "map_of (drop_columns names df) n = (if n \<in> set names then None else map_of df n)"
  by (induction df) (auto simp: drop_columns_def)

lemma map_of_pruned:
  "map_of (drop_columns [col \<leftarrow> map fst df. startswith col ''Unnamed''] df) n
   = (if startswith n ''Unnamed'' then None else map_of df n)"
  by (auto simp: map_of_drop_columns map_of_eq_None_iff)


lemma not_unnamed [simp]:
  "\<not> startswith ''Date'' ''Unnamed''" "\<not> startswith ''Amount'' ''Unnamed''"
  "\<not> startswith ''Amount_numeric'' ''Unnamed''" "\<not> startswith ''Month'' ''Unnamed''"
  "\<not> startswith ''Category'' ''Unnamed''" "\<not> startswith ''Received / paid'' ''Unnamed''"
  "\<not> startswith ''If shopped, where'' ''Unnamed''"
  by (simp_all add: startswith_def)


lemma getcol_Some: "map_of df n = Some c \<Longrightarrow> getcol df n = Inr c"
  by (simp add: getcol_def)

lemma getcol_None: "map_of df n = None \<Longrightarrow> getcol df n = Inl (KeyError n)"
  by (simp add: getcol_def)

lemma getcol_Inr_iff: "getcol df n = Inr c \<longleftrightarrow> map_of df n = Some c"
  by (simp add: getcol_def split: option.splits)

lemma and_then_Inr [simp]: "and_then (Inr x) f = f x"
  by (simp add: and_then_def)

lemma and_then_Inl [simp]: "and_then (Inl e) f = Inl e"
  by (simp add: and_then_def)

lemma setcol_twice: "setcol (setcol df n c') n c = setcol df n c"
  by (simp add: setcol_def)

lemma load_and_clean_ok:
  assumes "map_of df0 ''Date'' = Some d" and "map_of df0 ''Amount'' = Some a"
    and "map_of df0 ''Category'' = Some c" and "map_of df0 ''Received / paid'' = Some r"
    and "map_of df0 ''If shopped, where'' = Some w"
  shows "load_and_clean L df0 = Inr (select_rows (notna (to_datetime L d)) (cleaned L df0 d a c r w))"
  unfolding load_and_clean_def Let_def dropna_subset_def cleaned_def amount_numeric_def
  using assms
  by (simp add: getcol_def map_of_pruned map_of_setcol setcol_twice)

lemma load_and_clean_fails:
  assumes "map_of df0 n = None" and "n \<in> set required_columns"
  shows "\<exists>k. load_and_clean L df0 = Inl (KeyError k) \<and> map_of df0 k = None
     \<and> k \<in> set required_columns"
proof -
  let ?P = "\<lambda>k. load_and_clean L df0 = Inl (KeyError k) \<and> map_of df0 k = None
     \<and> k \<in> set required_columns"
  have 1: "map_of df0 ''Date'' = None \<Longrightarrow> ?P ''Date''"
    unfolding load_and_clean_def Let_def
    by (simp add: getcol_def map_of_pruned required_columns_def)
  have 2: "?P ''Amount''" if "map_of df0 ''Date'' = Some d" "map_of df0 ''Amount'' = None" for d
    unfolding load_and_clean_def Let_def using that
    by (simp add: getcol_def map_of_pruned map_of_setcol required_columns_def)
  have 3: "?P ''Category''"
    if "map_of df0 ''Date'' = Some d" "map_of df0 ''Amount'' = Some a"
       "map_of df0 ''Category'' = None" for d a
    unfolding load_and_clean_def Let_def using that
    by (simp add: getcol_def map_of_pruned map_of_setcol required_columns_def)
  have 4: "?P ''Received / paid''"
    if "map_of df0 ''Date'' = Some d" "map_of df0 ''Amount'' = Some a"
       "map_of df0 ''Category'' = Some c" "map_of df0 ''Received / paid'' = None" for d a c
    unfolding load_and_clean_def Let_def using that
    by (simp add: getcol_def map_of_pruned map_of_setcol required_columns_def)
  have 5: "?P ''If shopped, where''"
    if "map_of df0 ''Date'' = Some d" "map_of df0 ''Amount'' = Some a"
       "map_of df0 ''Category'' = Some c" "map_of df0 ''Received / paid'' = Some r"
       "map_of df0 ''If shopped, where'' = None" for d a c r
    unfolding load_and_clean_def Let_def using that
    by (simp add: getcol_def map_of_pruned map_of_setcol required_columns_def)
  show ?thesis
  proof (cases "map_of df0 ''Date''")
    case None
    then have "?P ''Date''" using 1 by simp
    then show ?thesis by (intro exI [of _ "''Date''"]) simp
  next
    case d: (Some d)
    show ?thesis
    proof (cases "map_of df0 ''Amount''")
      case None
      then have "?P ''Amount''" using 2 d by simp
    then show ?thesis by (intro exI [of _ "''Amount''"]) simp
    next
      case a: (Some a)
      show ?thesis
      proof (cases "map_of df0 ''Category''")
        case None
        then have "?P ''Category''" using 3 d a by simp
    then show ?thesis by (intro exI [of _ "''Category''"]) simp
      next
        case c: (Some c)
        show ?thesis
        proof (cases "map_of df0 ''Received / paid''")
          case None
          then have "?P ''Received / paid''" using 4 d a c by simp
    then show ?thesis by (intro exI [of _ "''Received / paid''"]) simp
        next
          case r: (Some r)
          show ?thesis
          proof (cases "map_of df0 ''If shopped, where''")
            case None
            then have "?P ''If shopped, where''" using 5 d a c r by simp
    then show ?thesis by (intro exI [of _ "''If shopped, where''"]) simp
          next
            case (Some w)
            then show ?thesis using assms d a c r by (auto simp: required_columns_def)
          qed
        qed
      qed
    qed
  qed
qed

lemma map_of_cleaned:
  "map_of (cleaned L df0 d a c r w) n =
     (if n = ''If shopped, where'' then Some (fillna (Str []) w)
      else if n = ''Received / paid'' then Some (fillna (Str ''Unknown'') r)
      else if n = ''Category'' then Some (fillna (Str ''Uncategorized'') c)
      else if n = ''Month'' then Some (dt_strftime_Ym (to_datetime L d))
      else if n = ''Amount_numeric'' then Some (amount_numeric L a)
      else if n = ''Date'' then Some (to_datetime L d)
      else if startswith n ''Unnamed'' then None
      else map_of df0 n)"
  by (simp add: cleaned_def map_of_setcol map_of_pruned)

lemma load_and_clean_Inr:
  assumes "load_and_clean L df0 = Inr out"
  obtains d a c r w where "map_of df0 ''Date'' = Some d" and "map_of df0 ''Amount'' = Some a"
    and "map_of df0 ''Category'' = Some c" and "map_of df0 ''Received / paid'' = Some r"
    and "map_of df0 ''If shopped, where'' = Some w"
    and "out = select_rows (notna (to_datetime L d)) (cleaned L df0 d a c r w)"
proof -
  have ex: "\<exists>x. map_of df0 n = Some x" if "n \<in> set required_columns" for n
  proof (cases "map_of df0 n")
    case None
    from load_and_clean_fails [OF None that, of L] assms show ?thesis by auto
  next
    case (Some x)
    then show ?thesis by simp
  qed
  have "\<exists>d. map_of df0 ''Date'' = Some d" "\<exists>a. map_of df0 ''Amount'' = Some a"
    "\<exists>c. map_of df0 ''Category'' = Some c" "\<exists>r. map_of df0 ''Received / paid'' = Some r"
    "\<exists>w. map_of df0 ''If shopped, where'' = Some w"
    by (simp_all add: ex required_columns_def)
  then obtain d a c r w where cols: "map_of df0 ''Date'' = Some d" "map_of df0 ''Amount'' = Some a"
    "map_of df0 ''Category'' = Some c" "map_of df0 ''Received / paid'' = Some r"
    "map_of df0 ''If shopped, where'' = Some w"
    by (elim exE)
  from load_and_clean_ok [OF cols, of L] assms
  have "out = select_rows (notna (to_datetime L d)) (cleaned L df0 d a c r w)" by simp
  with cols show thesis by (rule that)
qed


lemma coerce_date_cases: "coerce_date r = NaN \<or> (\<exists>dt. coerce_date r = Ts dt \<and> valid_date dt)"
  by (cases r) (simp_all add: coerce_date_def)

lemma to_datetime_cell_cases:
  "to_datetime_cell L col c = NaN \<or> (\<exists>dt. to_datetime_cell L col c = Ts dt \<and> valid_date dt)"
  using coerce_date_cases [of "parse_datetime L col c"] coerce_date_cases [of "Some d'" for d']
  by (cases c) (simp_all add: to_datetime_cell_def)

lemma to_datetime_cells:
  "x \<in> set (to_datetime L d) \<Longrightarrow> x = NaN \<or> (\<exists>dt. x = Ts dt \<and> valid_date dt)"
  using to_datetime_cell_cases by (auto simp: to_datetime_def)

lemma length_to_datetime [simp]: "length (to_datetime L d) = length d"
  by (simp add: to_datetime_def)

lemma to_datetime_fixed:
  assumes "\<forall>x \<in> set col. \<exists>dt. x = Ts dt \<and> valid_date dt"
  shows "to_datetime L col = col"
proof -
  have "to_datetime_cell L col x = x" if "x \<in> set col" for x
    using assms that by (auto simp: to_datetime_cell_def coerce_date_def)
  then show ?thesis by (simp add: to_datetime_def map_idI)
qed

lemma select_kept: "select (notna (to_datetime L d)) xs = nths xs (kept L d)"
proof -
  have "{i. i < length (notna (to_datetime L d)) \<and> notna (to_datetime L d) ! i} = kept L d"
    by (auto simp: kept_def notna_def to_datetime_def)
  then show ?thesis by (simp add: select_nths)
qed

lemma select_notna: "x \<in> set (select (notna xs) xs) \<Longrightarrow> x \<noteq> NaN"
proof (induction xs)
  case Nil
  then show ?case by simp
next
  case (Cons y ys)
  then show ?case by (auto simp: notna_def split: if_splits)
qed


section \<open>The sample run\<close>

lemma sample_run: "load_and_clean sample_pandas sample_frame = Inr sample_clean"
proof -
  have "load_and_clean sample_pandas sample_frame =
      Inr (select_rows
        (notna (to_datetime sample_pandas
          [Str ''01.01.2024'', Str ''15.01.2024'', Str ''bad'', Str ''2024-02-03'', Str ''2024-02-10'']))
        (cleaned sample_pandas sample_frame
          [Str ''01.01.2024'', Str ''15.01.2024'', Str ''bad'', Str ''2024-02-03'', Str ''2024-02-10'']
          [Str ''CHF 100'', Str ''200'', Str ''5'', Str ''-7.50 CHF'', Str ''30'']
          [Str ''Food'', Str ''Salary'', Str ''X'', NaN, Str ''Transfer'']
          [Str ''Paid'', Str ''Received'', Str ''Paid'', NaN, Str ''Received, then paid back'']
          [Str ''Migros'', NaN, NaN, NaN, NaN]))"
    by (rule load_and_clean_ok) (simp_all add: sample_frame_def)
  also have "\<dots> = Inr sample_clean"
  proof -
    have dt: "to_datetime sample_pandas
        [Str ''01.01.2024'', Str ''15.01.2024'', Str ''bad'', Str ''2024-02-03'', Str ''2024-02-10'']
      = [Ts \<lparr>year = 2024, month = 1, day = 1\<rparr>, Ts \<lparr>year = 2024, month = 1, day = 15\<rparr>, NaN,
         Ts \<lparr>year = 2024, month = 2, day = 3\<rparr>, Ts \<lparr>year = 2024, month = 2, day = 10\<rparr>]"
      by code_simp
    have am: "amount_numeric sample_pandas [Str ''CHF 100'', Str ''200'', Str ''5'', Str ''-7.50 CHF'', Str ''30'']
      = [Num 100, Num 200, Num 5, Num (- (15 / 2)), Num 30]"
      by code_simp
    have mo: "dt_strftime_Ym [Ts \<lparr>year = 2024, month = 1, day = 1\<rparr>,
         Ts \<lparr>year = 2024, month = 1, day = 15\<rparr>, NaN, Ts \<lparr>year = 2024, month = 2, day = 3\<rparr>, Ts \<lparr>year = 2024, month = 2, day = 10\<rparr>]
      = [Str ''2024-01'', Str ''2024-01'', NaN, Str ''2024-02'', Str ''2024-02'']"
      by code_simp
    show ?thesis
      unfolding dt am mo cleaned_def
      by (simp add: mo sample_frame_def sample_clean_def select_rows_def setcol_def
          drop_columns_def startswith_def notna_def fillna_def)
  qed
  finally show ?thesis .
qed

section \<open>Which inputs the normalizer accepts\<close>




lemma kept_cells_valid:
  assumes "x \<in> set (nths (to_datetime L d) (kept L d))"
  shows "\<exists>dt. x = Ts dt \<and> valid_date dt"
proof -
  from assms have sel: "x \<in> set (select (notna (to_datetime L d)) (to_datetime L d))"
    by (simp add: select_kept)
  then have "x \<noteq> NaN" by (rule select_notna)
  moreover from sel have "x \<in> set (to_datetime L d)" by (rule set_select [THEN subsetD])
  then have "x = NaN \<or> (\<exists>dt. x = Ts dt \<and> valid_date dt)" by (rule to_datetime_cells)
  ultimately show ?thesis by simp
qed

lemma load_and_clean_columns:
  assumes "load_and_clean L df0 = Inr out"
    and "map_of df0 ''Date'' = Some d" and "map_of df0 ''Amount'' = Some a"
    and "map_of df0 ''Category'' = Some c" and "map_of df0 ''Received / paid'' = Some r"
    and "map_of df0 ''If shopped, where'' = Some w"
  shows "map_of out n = map_option (\<lambda>col. nths col (kept L d)) (map_of (cleaned L df0 d a c r w) n)"
proof -
  from load_and_clean_ok [OF assms(2-6), of L] assms(1)
  have out: "out = select_rows (notna (to_datetime L d)) (cleaned L df0 d a c r w)" by simp
  show ?thesis unfolding out map_of_select_rows by (simp add: select_kept [abs_def])
qed

section \<open>Which rows the normalizer keeps\<close>

text \<open>
  Claim C1. When \<^verbatim>\<open>load_and_clean\<close> returns, the rows of its result are the rows of the
  input whose date parses, in their order: every column of the result is the column it
  was computed from, restricted to the positions \<open>kept L d\<close> at which
  \<^verbatim>\<open>to_datetime\<close> gave a timestamp. So every row of the result has a valid date, and no
  row whose date parses is removed, whatever its other cells hold. In the kept rows a
  missing \<^verbatim>\<open>Category\<close> is \<^verbatim>\<open>"Uncategorized"\<close>, a missing \<^verbatim>\<open>Received / paid\<close> is
  \<^verbatim>\<open>"Unknown"\<close> and a missing \<^verbatim>\<open>If shopped, where\<close> is the empty text; a cell that is
  not missing is unchanged. (A field that is empty in the file is a missing cell of the
  frame.) The columns that the function does not assign keep their cells.
\<close>

theorem normalizer_drops_exactly_unparsed_dates:
  assumes "load_and_clean L df0 = Inr out" and "getcol df0 ''Date'' = Inr d"
    and "getcol df0 ''Category'' = Inr c" and "getcol df0 ''Received / paid'' = Inr r"
    and "getcol df0 ''If shopped, where'' = Inr w"
  shows "getcol out ''Date'' = Inr (nths (to_datetime L d) (kept L d))
    \<and> (\<forall>x \<in> set (nths (to_datetime L d) (kept L d)). \<exists>dt. x = Ts dt \<and> valid_date dt)
    \<and> getcol out ''Category''
        = Inr (nths (map (\<lambda>x. if x = NaN then Str ''Uncategorized'' else x) c) (kept L d))
    \<and> getcol out ''Received / paid''
        = Inr (nths (map (\<lambda>x. if x = NaN then Str ''Unknown'' else x) r) (kept L d))
    \<and> getcol out ''If shopped, where''
        = Inr (nths (map (\<lambda>x. if x = NaN then Str [] else x) w) (kept L d))
    \<and> (\<forall>n col. getcol df0 n = Inr col \<and> n \<notin> set assigned_columns \<and> \<not> startswith n ''Unnamed''
          \<longrightarrow> getcol out n = Inr (nths col (kept L d)))"
proof -
  from assms(1) obtain d' a c' r' w' where "map_of df0 ''Date'' = Some d'"
    and a: "map_of df0 ''Amount'' = Some a" and "map_of df0 ''Category'' = Some c'"
    and "map_of df0 ''Received / paid'' = Some r'" and "map_of df0 ''If shopped, where'' = Some w'"
    and "out = select_rows (notna (to_datetime L d')) (cleaned L df0 d' a c' r' w')"
    by (rule load_and_clean_Inr)
  from assms(2-5) have cols: "map_of df0 ''Date'' = Some d" "map_of df0 ''Category'' = Some c"
    "map_of df0 ''Received / paid'' = Some r" "map_of df0 ''If shopped, where'' = Some w"
    by (simp_all add: getcol_Inr_iff)
  note out = load_and_clean_columns [OF assms(1) cols(1) a cols(2-4)]
  have 1: "getcol out ''Date'' = Inr (nths (to_datetime L d) (kept L d))"
    by (simp add: getcol_Inr_iff out map_of_cleaned)
  have 2: "\<forall>x \<in> set (nths (to_datetime L d) (kept L d)). \<exists>dt. x = Ts dt \<and> valid_date dt"
    by (intro ballI) (rule kept_cells_valid)
  have 3: "getcol out ''Category''
        = Inr (nths (map (\<lambda>x. if x = NaN then Str ''Uncategorized'' else x) c) (kept L d))"
    by (simp add: getcol_Inr_iff out map_of_cleaned fillna_def)
  have 4: "getcol out ''Received / paid''
        = Inr (nths (map (\<lambda>x. if x = NaN then Str ''Unknown'' else x) r) (kept L d))"
    by (simp add: getcol_Inr_iff out map_of_cleaned fillna_def)
  have 5: "getcol out ''If shopped, where''
        = Inr (nths (map (\<lambda>x. if x = NaN then Str [] else x) w) (kept L d))"
    by (simp add: getcol_Inr_iff out map_of_cleaned fillna_def)
  have 6: "getcol out n = Inr (nths col (kept L d))"
    if "getcol df0 n = Inr col" "n \<notin> set assigned_columns" "\<not> startswith n ''Unnamed''" for n col
    using that by (simp add: getcol_Inr_iff out map_of_cleaned assigned_columns_def)
  show ?thesis
  proof (intro conjI allI impI)
    fix n col
    assume "getcol df0 n = Inr col \<and> n \<notin> set assigned_columns \<and> \<not> startswith n ''Unnamed''"
    then show "getcol out n = Inr (nths col (kept L d))" by (elim conjE) (rule 6)
  qed (fact 1 2 3 4 5)+
qed

theorem normalizer_drops_exactly_unparsed_dates_witness:
  "load_and_clean sample_pandas sample_frame = Inr sample_clean
   \<and> getcol sample_frame ''Date''
       = Inr [Str ''01.01.2024'', Str ''15.01.2024'', Str ''bad'', Str ''2024-02-03'', Str ''2024-02-10'']
   \<and> getcol sample_clean ''Category''
       = Inr (nths (map (\<lambda>x. if x = NaN then Str ''Uncategorized'' else x)
                [Str ''Food'', Str ''Salary'', Str ''X'', NaN, Str ''Transfer''])
              (kept sample_pandas
                [Str ''01.01.2024'', Str ''15.01.2024'', Str ''bad'', Str ''2024-02-03'', Str ''2024-02-10'']))"
proof -
  have d: "getcol sample_frame ''Date''
      = Inr [Str ''01.01.2024'', Str ''15.01.2024'', Str ''bad'', Str ''2024-02-03'', Str ''2024-02-10'']"
    by (simp add: getcol_def sample_frame_def)
  have c: "getcol sample_frame ''Category'' = Inr [Str ''Food'', Str ''Salary'', Str ''X'', NaN, Str ''Transfer'']"
    by (simp add: getcol_def sample_frame_def)
  have r: "getcol sample_frame ''Received / paid''
      = Inr [Str ''Paid'', Str ''Received'', Str ''Paid'', NaN, Str ''Received, then paid back'']"
    by (simp add: getcol_def sample_frame_def)
  have w: "getcol sample_frame ''If shopped, where'' = Inr [Str ''Migros'', NaN, NaN, NaN, NaN]"
    by (simp add: getcol_def sample_frame_def)
  note all = normalizer_drops_exactly_unparsed_dates [OF sample_run d c r w]
  from all have "getcol sample_clean ''Category''
       = Inr (nths (map (\<lambda>x. if x = NaN then Str ''Uncategorized'' else x)
                [Str ''Food'', Str ''Salary'', Str ''X'', NaN, Str ''Transfer''])
              (kept sample_pandas
                [Str ''01.01.2024'', Str ''15.01.2024'', Str ''bad'', Str ''2024-02-03'', Str ''2024-02-10'']))"
    by (elim conjE)
  with sample_run d show ?thesis by (intro conjI)
qed

section \<open>The numeric amount\<close>

lemma amount_numeric_cells:
  "amount_numeric L a = map (\<lambda>c. Num (spec_amount (str_of_cell L c))) a"
  by (simp add: amount_numeric_def fillna_def to_numeric_def str_map_def astype_str_def
      re_sub_non_numeric_def spec_amount_def split: option.splits)

lemma amount_examples:
  "amount_numeric L [Str (''CHF 1'' @ [CHR 0x27] @ ''234.56''), Str ''1234.56 CHF'', Str ''garbage'']
     = [Num (123456 / 100), Num (123456 / 100), Num 0]"
  by code_simp

lemma filter_str_replace:
  assumes "filter P old = []"
  shows "filter P (str_replace old [] s) = filter P s"
  using assms
proof (induction old "[] :: string" s rule: str_replace.induct)
  case (1 old)
  show ?case by simp
next
  case (2 old c cs)
  show ?case
  proof (cases "old \<noteq> [] \<and> take (length old) (c # cs) = old")
    case True
    then have split: "c # cs = old @ drop (length old) (c # cs)"
      by (metis append_take_drop_id)
    have "filter P (str_replace old [] (c # cs))
        = filter P (str_replace old [] (drop (length old) (c # cs)))"
      using True by (simp only: str_replace.simps if_True append_Nil simp_thms)
    also have "\<dots> = filter P (drop (length old) (c # cs))"
      using 2(1) [OF True 2(3)] by simp
    also have "\<dots> = filter P old @ filter P (drop (length old) (c # cs))"
      using 2(3) by simp
    also have "\<dots> = filter P (old @ drop (length old) (c # cs))"
      by simp
    also have "\<dots> = filter P (c # cs)"
      using split by simp
    finally show ?thesis .
  next
    case False
    then have "str_replace old [] (c # cs) = c # str_replace old [] cs"
      by (simp only: str_replace.simps if_False simp_thms)
    then show ?thesis using 2(2) [OF False 2(3)] by simp
  qed
qed

lemma filter_str_replace_CHF:
  "filter numeric_char (str_replace ''CHF'' [] s) = filter numeric_char s"
  by (rule filter_str_replace) (simp add: numeric_char_def isdigit_def)

text \<open>
  Claim C2. In the result of \<^verbatim>\<open>load_and_clean\<close> the column \<^verbatim>\<open>Amount_numeric\<close> holds, for
  every kept row, the number \<open>spec_amount\<close> of the text of the raw \<^verbatim>\<open>Amount\<close> cell: the
  decimal that remains after deleting \<^verbatim>\<open>CHF\<close> and every character other than digits,
  the decimal point and the minus sign, or 0 when the remainder is not a number. Every
  cell of the column is a number, never a missing value. The column computed for the
  texts \<^verbatim>\<open>CHF 1'234.56\<close>, \<^verbatim>\<open>1234.56 CHF\<close> and \<^verbatim>\<open>garbage\<close> is 1234.56, 1234.56 and 0.
\<close>

theorem amount_numeric_is_stripped_decimal:
  assumes "load_and_clean L df0 = Inr out" and "getcol df0 ''Date'' = Inr d"
    and "getcol df0 ''Amount'' = Inr a"
  shows "getcol out ''Amount_numeric''
      = Inr (nths (map (\<lambda>c. Num (spec_amount (str_of_cell L c))) a) (kept L d))
    \<and> amount_numeric L
        [Str (''CHF 1'' @ [CHR 0x27] @ ''234.56''), Str ''1234.56 CHF'', Str ''garbage'']
      = [Num (123456 / 100), Num (123456 / 100), Num 0]"
proof -
  from assms(1) obtain d' a' c r w where "map_of df0 ''Date'' = Some d'"
    and "map_of df0 ''Amount'' = Some a'" and c: "map_of df0 ''Category'' = Some c"
    and r: "map_of df0 ''Received / paid'' = Some r" and w: "map_of df0 ''If shopped, where'' = Some w"
    and "out = select_rows (notna (to_datetime L d')) (cleaned L df0 d' a' c r w)"
    by (rule load_and_clean_Inr)
  from assms(2,3) have cols: "map_of df0 ''Date'' = Some d" "map_of df0 ''Amount'' = Some a"
    by (simp_all add: getcol_Inr_iff)
  note out = load_and_clean_columns [OF assms(1) cols c r w]
  have "getcol out ''Amount_numeric''
      = Inr (nths (map (\<lambda>c. Num (spec_amount (str_of_cell L c))) a) (kept L d))"
    by (simp add: getcol_Inr_iff out map_of_cleaned amount_numeric_cells)
  then show ?thesis using amount_examples by (intro conjI)
qed

theorem amount_numeric_is_stripped_decimal_witness:
  "load_and_clean sample_pandas sample_frame = Inr sample_clean
   \<and> getcol sample_clean ''Amount_numeric''
      = Inr (nths (map (\<lambda>c. Num (spec_amount (str_of_cell sample_pandas c)))
                [Str ''CHF 100'', Str ''200'', Str ''5'', Str ''-7.50 CHF'', Str ''30''])
              (kept sample_pandas
                [Str ''01.01.2024'', Str ''15.01.2024'', Str ''bad'', Str ''2024-02-03'', Str ''2024-02-10'']))"
proof -
  have d: "getcol sample_frame ''Date''
      = Inr [Str ''01.01.2024'', Str ''15.01.2024'', Str ''bad'', Str ''2024-02-03'', Str ''2024-02-10'']"
    by (simp add: getcol_def sample_frame_def)
  have a: "getcol sample_frame ''Amount''
      = Inr [Str ''CHF 100'', Str ''200'', Str ''5'', Str ''-7.50 CHF'', Str ''30'']"
    by (simp add: getcol_def sample_frame_def)
  from amount_numeric_is_stripped_decimal [OF sample_run d a]
  have "getcol sample_clean ''Amount_numeric''
      = Inr (nths (map (\<lambda>c. Num (spec_amount (str_of_cell sample_pandas c)))
                [Str ''CHF 100'', Str ''200'', Str ''5'', Str ''-7.50 CHF'', Str ''30''])
              (kept sample_pandas
                [Str ''01.01.2024'', Str ''15.01.2024'', Str ''bad'', Str ''2024-02-03'', Str ''2024-02-10'']))"
    by (rule conjunct1)
  with sample_run show ?thesis by (intro conjI)
qed

section \<open>The month key\<close>

lemma length_digits_le: "0 < k \<Longrightarrow> n < 10 ^ k \<Longrightarrow> length (digits n) \<le> k"
proof (induction k arbitrary: n)
  case 0
  then show ?case by simp
next
  case (Suc k)
  show ?case
  proof (cases "n < 10")
    case True
    then show ?thesis by (subst digits.simps) simp
  next
    case False
    with Suc.prems have k: "0 < k" by (cases k) simp_all
    from Suc.prems have "n div 10 < 10 ^ k" by (simp add: less_mult_imp_div_less mult.commute)
    with Suc.IH k have "length (digits (n div 10)) \<le> k" by simp
    with False show ?thesis by (subst digits.simps) simp
  qed
qed

lemma length_zero_pad: "0 < w \<Longrightarrow> n < 10 ^ w \<Longrightarrow> length (zero_pad w n) = w"
  using length_digits_le [of w n] by (simp add: zero_pad_def)

lemma valid_date_bounds: "valid_date dt \<Longrightarrow> year dt < 10 ^ 4 \<and> month dt < 10 ^ 2"
  by (auto simp: valid_date_def less_eq_prod_def)

lemma strftime_is_iso_prefix:
  assumes "valid_date dt"
  shows "strftime_Ym dt = take 7 (isoformat dt)"
proof -
  from valid_date_bounds [OF assms]
  have "length (zero_pad 4 (year dt)) = 4" "length (zero_pad 2 (month dt)) = 2"
    by (simp_all add: length_zero_pad)
  then show ?thesis by (simp add: strftime_Ym_def isoformat_def)
qed

lemma all_timestamps:
  "\<forall>x \<in> set xs. \<exists>dt. x = Ts dt \<and> valid_date dt
   \<Longrightarrow> \<exists>dates. xs = map Ts dates \<and> list_all valid_date dates"
proof (induction xs)
  case Nil
  then show ?case by simp
next
  case (Cons x xs)
  then obtain dates where "xs = map Ts dates" "list_all valid_date dates" by auto
  moreover from Cons.prems obtain dt where "x = Ts dt" "valid_date dt" by auto
  ultimately have "x # xs = map Ts (dt # dates) \<and> list_all valid_date (dt # dates)" by simp
  then show ?case by (rule exI)
qed

lemma strftime_timestamps:
  "list_all valid_date dates
   \<Longrightarrow> dt_strftime_Ym (map Ts dates) = map (\<lambda>dt. Str (take 7 (isoformat dt))) dates"
  by (induction dates) (simp_all add: dt_strftime_Ym_def strftime_is_iso_prefix)

text \<open>
  Claim C7. In the result of \<^verbatim>\<open>load_and_clean\<close> every cell of \<^verbatim>\<open>Date\<close> is a timestamp,
  and the cell of \<^verbatim>\<open>Month\<close> in the same row is the text of the first seven characters of
  the ISO form of that date, \<^verbatim>\<open>YYYY-MM\<close>; the date 2024-03-15 gives the month
  \<^verbatim>\<open>2024-03\<close>.
\<close>

theorem month_is_iso_prefix_of_date:
  assumes "load_and_clean L df0 = Inr out"
  shows "(\<exists>dates. getcol out ''Date'' = Inr (map Ts dates)
           \<and> getcol out ''Month'' = Inr (map (\<lambda>dt. Str (take 7 (isoformat dt))) dates))
    \<and> dt_strftime_Ym [Ts \<lparr>year = 2024, month = 3, day = 15\<rparr>] = [Str ''2024-03'']
    \<and> isoformat \<lparr>year = 2024, month = 3, day = 15\<rparr> = ''2024-03-15''"
proof -
  from assms obtain d a c r w where cols: "map_of df0 ''Date'' = Some d"
    "map_of df0 ''Amount'' = Some a" "map_of df0 ''Category'' = Some c"
    "map_of df0 ''Received / paid'' = Some r" "map_of df0 ''If shopped, where'' = Some w"
    and "out = select_rows (notna (to_datetime L d)) (cleaned L df0 d a c r w)"
    by (rule load_and_clean_Inr)
  note out = load_and_clean_columns [OF assms cols]
  have "\<forall>x \<in> set (nths (to_datetime L d) (kept L d)). \<exists>dt. x = Ts dt \<and> valid_date dt"
    by (intro ballI) (rule kept_cells_valid)
  then have "\<exists>dates. nths (to_datetime L d) (kept L d) = map Ts dates \<and> list_all valid_date dates"
    by (rule all_timestamps)
  then obtain dates where dates: "nths (to_datetime L d) (kept L d) = map Ts dates"
    "list_all valid_date dates"
    by (elim exE conjE)
  have 1: "getcol out ''Date'' = Inr (map Ts dates)"
    by (simp add: getcol_Inr_iff out map_of_cleaned dates(1))
  have "nths (dt_strftime_Ym (to_datetime L d)) (kept L d)
      = dt_strftime_Ym (nths (to_datetime L d) (kept L d))"
    by (simp add: dt_strftime_Ym_def nths_map)
  also have "\<dots> = map (\<lambda>dt. Str (take 7 (isoformat dt))) dates"
    unfolding dates(1) using dates(2) by (rule strftime_timestamps)
  finally have 2: "getcol out ''Month'' = Inr (map (\<lambda>dt. Str (take 7 (isoformat dt))) dates)"
    by (simp add: getcol_Inr_iff out map_of_cleaned)
  from 1 2 have "\<exists>dates. getcol out ''Date'' = Inr (map Ts dates)
           \<and> getcol out ''Month'' = Inr (map (\<lambda>dt. Str (take 7 (isoformat dt))) dates)"
    by (intro exI [of _ dates] conjI)
  moreover have "dt_strftime_Ym [Ts \<lparr>year = 2024, month = 3, day = 15\<rparr>] = [Str ''2024-03'']"
    by code_simp
  moreover have "isoformat \<lparr>year = 2024, month = 3, day = 15\<rparr> = ''2024-03-15''"
    by code_simp
  ultimately show ?thesis by (intro conjI)
qed

theorem month_is_iso_prefix_of_date_witness:
  "load_and_clean sample_pandas sample_frame = Inr sample_clean
   \<and> (\<exists>dates. getcol sample_clean ''Date'' = Inr (map Ts dates)
           \<and> getcol sample_clean ''Month'' = Inr (map (\<lambda>dt. Str (take 7 (isoformat dt))) dates))"
proof -
  from month_is_iso_prefix_of_date [OF sample_run]
  have "\<exists>dates. getcol sample_clean ''Date'' = Inr (map Ts dates)
           \<and> getcol sample_clean ''Month'' = Inr (map (\<lambda>dt. Str (take 7 (isoformat dt))) dates)"
    by (rule conjunct1)
  with sample_run show ?thesis by (intro conjI)
qed

section \<open>Running the normalizer on its own result\<close>

lemma cleaned_keys:
  assumes "n \<in> fst ` set (cleaned L df0 d a c r w)"
  shows "\<not> startswith n ''Unnamed''"
proof
  assume u: "startswith n ''Unnamed''"
  then have "n \<noteq> ''If shopped, where''" "n \<noteq> ''Received / paid''" "n \<noteq> ''Category''"
    "n \<noteq> ''Month''" "n \<noteq> ''Amount_numeric''" "n \<noteq> ''Date''"
    using not_unnamed by auto
  with u have "map_of (cleaned L df0 d a c r w) n = None"
    by (simp add: map_of_cleaned)
  with assms show False by (simp add: map_of_eq_None_iff)
qed

lemma drop_columns_none: "drop_columns [] df = df"
  by (simp add: drop_columns_def)

lemma no_unnamed_columns:
  assumes "\<forall>n \<in> fst ` set df. \<not> startswith n ''Unnamed''"
  shows "drop_columns [col \<leftarrow> map fst df. startswith col ''Unnamed''] df = df"
proof -
  from assms have "[col \<leftarrow> map fst df. startswith col ''Unnamed''] = []"
    by (simp add: filter_empty_conv)
  then show ?thesis by (simp add: drop_columns_none)
qed

lemma setcol_same: "map_of df n = Some c \<Longrightarrow> setcol df n c = df"
  by (simp add: setcol_def update_triv)

lemma select_rows_all:
  assumes "list_all id m" and "\<forall>col \<in> snd ` set df. length col \<le> length m"
  shows "select_rows m df = df"
proof -
  have "(case p of (n, c) \<Rightarrow> (n, select m c)) = p" if "p \<in> set df" for p
  proof (cases p)
    case (Pair n c)
    with that assms(2) have "length c \<le> length m" by force
    with assms(1) have "select m c = c" by (rule select_all)
    with Pair show ?thesis by simp
  qed
  then show ?thesis unfolding select_rows_def by (rule map_idI)
qed

lemma notna_select_all: "list_all id (notna (select (notna xs) xs))"
proof (induction xs)
  case Nil
  show ?case by (simp add: notna_def)
next
  case (Cons x xs)
  then show ?case by (simp add: notna_def)
qed

lemma length_select_notna: "length (select (notna xs) xs) = length (filter id (notna xs))"
  by (rule length_select_eq) (simp add: notna_def)

lemma fillna_twice: "v \<noteq> NaN \<Longrightarrow> fillna v (fillna v c) = fillna v c"
  by (simp add: fillna_def)

lemma fillna_select: "fillna v (select m c) = select m (fillna v c)"
  by (simp add: fillna_def select_map)

lemma amount_numeric_select: "amount_numeric L (select m a) = select m (amount_numeric L a)"
  by (simp add: amount_numeric_cells select_map)

lemma strftime_select: "dt_strftime_Ym (select m xs) = select m (dt_strftime_Ym xs)"
  by (simp add: dt_strftime_Ym_def select_map)

lemma to_datetime_select_notna:
  "to_datetime L (select (notna (to_datetime L d)) (to_datetime L d))
     = select (notna (to_datetime L d)) (to_datetime L d)"
proof (rule to_datetime_fixed, rule ballI)
  fix x assume sel: "x \<in> set (select (notna (to_datetime L d)) (to_datetime L d))"
  then have "x \<noteq> NaN" by (rule select_notna)
  moreover from sel have "x \<in> set (to_datetime L d)" by (rule set_select [THEN subsetD])
  then have "x = NaN \<or> (\<exists>dt. x = Ts dt \<and> valid_date dt)" by (rule to_datetime_cells)
  ultimately show "\<exists>dt. x = Ts dt \<and> valid_date dt" by simp
qed

lemma length_notna [simp]: "length (notna xs) = length xs"
  by (simp add: notna_def)

lemma select_rows_columns_short:
  assumes "col \<in> snd ` set (select_rows m df)"
  shows "length col \<le> length (filter id m)"
proof -
  from assms obtain c where "col = select m c"
    by (auto simp: select_rows_def)
  then show ?thesis by (simp add: length_select_le)
qed

text \<open>
  Claim C9. The normalizer is idempotent: when \<^verbatim>\<open>load_and_clean\<close> returns a frame, running
  it again on that frame returns the same frame. No row is dropped and no column
  changes; in particular the dates, the numeric amounts, the months and the three text
  columns keep their values.
\<close>

theorem normalizer_idempotent:
  assumes "load_and_clean L df0 = Inr out"
  shows "load_and_clean L out = Inr out"
proof -
  from assms obtain d a c r w where cols: "map_of df0 ''Date'' = Some d"
    "map_of df0 ''Amount'' = Some a" "map_of df0 ''Category'' = Some c"
    "map_of df0 ''Received / paid'' = Some r" "map_of df0 ''If shopped, where'' = Some w"
    and out: "out = select_rows (notna (to_datetime L d)) (cleaned L df0 d a c r w)"
    by (rule load_and_clean_Inr)
  let ?m = "notna (to_datetime L d)"
  let ?D = "select ?m (to_datetime L d)"
  have mo: "map_of out n = map_option (select ?m) (map_of (cleaned L df0 d a c r w) n)" for n
    unfolding out by (rule map_of_select_rows)
  have oD: "map_of out ''Date'' = Some ?D"
    by (simp add: mo map_of_cleaned)
  have oA: "map_of out ''Amount'' = Some (select ?m a)"
    by (simp add: mo map_of_cleaned cols)
  have oC: "map_of out ''Category'' = Some (select ?m (fillna (Str ''Uncategorized'') c))"
    by (simp add: mo map_of_cleaned)
  have oR: "map_of out ''Received / paid'' = Some (select ?m (fillna (Str ''Unknown'') r))"
    by (simp add: mo map_of_cleaned)
  have oW: "map_of out ''If shopped, where'' = Some (select ?m (fillna (Str []) w))"
    by (simp add: mo map_of_cleaned)
  have oN: "map_of out ''Amount_numeric'' = Some (select ?m (amount_numeric L a))"
    by (simp add: mo map_of_cleaned)
  have oM: "map_of out ''Month'' = Some (select ?m (dt_strftime_Ym (to_datetime L d)))"
    by (simp add: mo map_of_cleaned)
  have tD: "to_datetime L ?D = ?D" by (rule to_datetime_select_notna)
  have keys: "\<forall>n \<in> fst ` set out. \<not> startswith n ''Unnamed''"
  proof
    fix n assume "n \<in> fst ` set out"
    then have "n \<in> set (map fst out)" by simp
    then have "n \<in> fst ` set (cleaned L df0 d a c r w)"
      unfolding out keys_select_rows by simp
    then show "\<not> startswith n ''Unnamed''" by (rule cleaned_keys)
  qed
  have s1: "setcol (drop_columns [col \<leftarrow> map fst out. startswith col ''Unnamed''] out)
      ''Date'' (to_datetime L ?D) = out"
    unfolding no_unnamed_columns [OF keys] tD using oD by (rule setcol_same)
  have s2: "setcol out ''Amount_numeric'' (amount_numeric L (select ?m a)) = out"
    unfolding amount_numeric_select using oN by (rule setcol_same)
  have s3: "setcol out ''Month'' (dt_strftime_Ym (to_datetime L ?D)) = out"
    unfolding tD strftime_select using oM by (rule setcol_same)
  have s4: "setcol out ''Category''
      (fillna (Str ''Uncategorized'') (select ?m (fillna (Str ''Uncategorized'') c))) = out"
    unfolding fillna_select using oC by (simp add: fillna_twice setcol_same)
  have s5: "setcol out ''Received / paid''
      (fillna (Str ''Unknown'') (select ?m (fillna (Str ''Unknown'') r))) = out"
    unfolding fillna_select using oR by (simp add: fillna_twice setcol_same)
  have s6: "setcol out ''If shopped, where''
      (fillna (Str []) (select ?m (fillna (Str []) w))) = out"
    unfolding fillna_select using oW by (simp add: fillna_twice setcol_same)
  have cl: "cleaned L out ?D (select ?m a) (select ?m (fillna (Str ''Uncategorized'') c))
      (select ?m (fillna (Str ''Unknown'') r)) (select ?m (fillna (Str []) w)) = out"
    unfolding cleaned_def s1 s2 s3 s4 s5 s6 by (rule refl)
  have short: "\<forall>col \<in> snd ` set out. length col \<le> length (notna ?D)"
  proof
    fix col assume "col \<in> snd ` set out"
    then have "length col \<le> length (filter id ?m)"
      unfolding out by (rule select_rows_columns_short)
    then show "length col \<le> length (notna ?D)"
      by (simp add: length_select_notna)
  qed
  have sr: "select_rows (notna ?D) out = out"
    using notna_select_all short by (rule select_rows_all)
  from load_and_clean_ok [OF oD oA oC oR oW, of L]
  show ?thesis unfolding tD cl sr .
qed

theorem normalizer_idempotent_witness:
  "load_and_clean sample_pandas sample_frame = Inr sample_clean
   \<and> load_and_clean sample_pandas sample_clean = Inr sample_clean"
  using normalizer_idempotent [OF sample_run] sample_run by (intro conjI)

section \<open>The views of a cleaned frame\<close>








lemma find_sub_iff: "find_sub p s \<longleftrightarrow> (\<exists>u v. s = u @ p @ v)"
proof (induction s)
  case Nil
  show ?case by auto
next
  case (Cons c cs)
  show ?case
  proof
    assume "find_sub p (c # cs)"
    then consider "take (length p) (c # cs) = p" | "find_sub p cs" by auto
    then show "\<exists>u v. c # cs = u @ p @ v"
    proof cases
      case 1
      then have "c # cs = [] @ p @ drop (length p) (c # cs)"
        by (metis append_Nil append_take_drop_id)
      then show ?thesis by blast
    next
      case 2
      with Cons.IH obtain u v where "cs = u @ p @ v" by blast
      then have "c # cs = (c # u) @ p @ v" by simp
      then show ?thesis by blast
    qed
  next
    assume "\<exists>u v. c # cs = u @ p @ v"
    then obtain u v where uv: "c # cs = u @ p @ v" by blast
    show "find_sub p (c # cs)"
    proof (cases u)
      case Nil
      with uv have "take (length p) (c # cs) = p" by simp
      then show ?thesis by simp
    next
      case (Cons a u')
      with uv have "cs = u' @ p @ v" by simp
      with Cons.IH have "find_sub p cs" by blast
      then show ?thesis by simp
    qed
  qed
qed






section \<open>The sign of the totals\<close>








end
